theory Spec2Isabelle
  imports Complex_Main "HOL-Library.Word" "HOL-Library.Sublist"
begin

section \<open>JavaScript strings, values and objects\<close>

text \<open>
  A JavaScript string is a sequence of UTF-16 code units. String literals of the source
  are ASCII; \<open>js\<close> embeds such a literal.
\<close>

type_synonym jsstring = "16 word list"

definition js :: "string \<Rightarrow> jsstring" where
  "js s = map (\<lambda>c. of_nat (of_char c)) s"

text \<open>
  Values. A property of \<open>Partial<AvatarConfig>\<close> holds a string or \<open>undefined\<close> (an
  optional property may be present and hold \<open>undefined\<close>). The lookup in a table can
  also give an object or a function, inherited from the table's prototype: \<open>Obj s\<close> is
  such a value, with the string \<open>s\<close> that \<open>ToString\<close> gives for it.
\<close>

datatype jsval = Undefined | Str jsstring | Obj jsstring

text \<open>The keys of \<open>AvatarConfig\<close> (src/types.ts, interface AvatarConfig).\<close>

datatype key = Background | Skin | Tshirt | Expression | Hair

text \<open>
  A configuration object is a finite map from keys to values; a key outside the domain
  is an absent property. Reading a property that is absent gives \<open>undefined\<close>.
\<close>

type_synonym obj = "key \<rightharpoonup> jsval"

definition get :: "obj \<Rightarrow> key \<Rightarrow> jsval" where
  "get ob k = (case ob k of None \<Rightarrow> Undefined | Some v \<Rightarrow> v)"

text \<open>A complete \<open>AvatarConfig\<close>: every key is present and holds a string.\<close>

definition is_string :: "jsval \<Rightarrow> bool" where
  "is_string v = (case v of Str _ \<Rightarrow> True | _ \<Rightarrow> False)"

definition complete :: "obj \<Rightarrow> bool" where
  "complete ob = list_all (\<lambda>k. case ob k of None \<Rightarrow> False | Some v \<Rightarrow> is_string v)
     [Background, Skin, Tshirt, Expression, Hair]"

text \<open>A partial configuration whose supplied values are all strings.\<close>

definition supplies_strings :: "obj \<Rightarrow> bool" where
  "supplies_strings ob = list_all (\<lambda>k. case ob k of None \<Rightarrow> True | Some v \<Rightarrow> is_string v)
     [Background, Skin, Tshirt, Expression, Hair]"

section \<open>Variant model (src/types.ts)\<close>






text \<open>\<open>defaultConfig\<close> (the same object in the export utilities and in Avatar.tsx).\<close>

definition defaultConfig :: obj where
  "defaultConfig = [Background \<mapsto> Str (js ''babyBlue''), Skin \<mapsto> Str (js ''softPeach''),
     Tshirt \<mapsto> Str (js ''orange''), Expression \<mapsto> Str (js ''happy''),
     Hair \<mapsto> Str (js ''shortBuzz'')]"

section \<open>Composition: generateSvg\<close>

text \<open>
  The five lookup tables (\<open>backgroundSvg\<close>, \<open>skinSvg\<close>, \<open>tshirtSvg\<close>,
  \<open>expressionSvg\<close>, \<open>hairSvg\<close>) live in components/svg/*Strings, which are not part
  of the sources at hand: they are parameters. A table is an object. It has its own
  properties, which hold markup strings, and it resolves every other name through its
  prototype chain: a plain object literal inherits \<open>constructor\<close>, \<open>toString\<close> and the
  other properties of \<open>Object.prototype\<close>, whose values are functions and objects. A
  name that is neither its own nor inherited gives \<open>undefined\<close>.
\<close>

record table =
  own :: "jsstring \<rightharpoonup> jsstring"
  inherited :: "jsstring \<rightharpoonup> jsval"

record fragments =
  backgroundSvg :: table
  skinSvg :: table
  tshirtSvg :: table
  expressionSvg :: table
  hairSvg :: table

text \<open>
  \<open>ToString\<close>, as a template literal and a property access apply it: \<open>undefined\<close>
  becomes the string \<open>"undefined"\<close>.
\<close>

definition ToString :: "jsval \<Rightarrow> jsstring" where
  "ToString v = (case v of Undefined \<Rightarrow> js ''undefined'' | Str s \<Rightarrow> s | Obj s \<Rightarrow> s)"

definition to_property_key :: "jsval \<Rightarrow> jsstring" where
  "to_property_key v = ToString v"

text \<open>
  \<open>table[v]\<close>: the value is converted to a property name, which is looked up among the
  table's own properties first and in its prototype chain next.
\<close>

definition index :: "table \<Rightarrow> jsval \<Rightarrow> jsval" where
  "index t v =
     (case own t (to_property_key v) of
        Some f \<Rightarrow> Str f
      | None \<Rightarrow> (case inherited t (to_property_key v) of Some x \<Rightarrow> x | None \<Rightarrow> Undefined))"

text \<open>
  \<open>${x || ''}\<close>: \<open>undefined\<close> and the empty string are falsy, an object or a function
  is truthy; the template then takes the string of what \<open>||\<close> gives.
\<close>

definition truthy :: "jsval \<Rightarrow> bool" where
  "truthy v = (case v of Undefined \<Rightarrow> False | Str s \<Rightarrow> s \<noteq> [] | Obj _ \<Rightarrow> True)"

definition or_empty :: "jsval \<Rightarrow> jsstring" where
  "or_empty v = ToString (if truthy v then v else Str [])"

text \<open>
  Numbers. A size is a value of type \<open>number\<close>. The non-negative integers below
  \<open>2^53\<close> (up to \<open>Number.MAX_SAFE_INTEGER\<close>) are doubles, and \<open>Number::toString\<close>
  prints them as their decimal digits. Any other number (negative, fractional, larger,
  \<open>NaN\<close>, infinite) is represented by the string that \<open>Number::toString\<close> gives for it.
\<close>

datatype number = SafeInteger "53 word" | OtherNumber jsstring

definition digit :: "nat \<Rightarrow> 16 word" where
  "digit d = of_nat (48 + d)"

fun decimal_digits :: "nat \<Rightarrow> jsstring" where
  "decimal_digits n =
     (if n < 10 then [digit n] else decimal_digits (n div 10) @ [digit (n mod 10)])"

declare decimal_digits.simps [simp del]

definition Number_toString :: "number \<Rightarrow> jsstring" where
  "Number_toString x = (case x of SafeInteger n \<Rightarrow> decimal_digits (unat n) | OtherNumber s \<Rightarrow> s)"

text \<open>
  \<open>generateSvg(config, size)\<close>. The default arguments (\<open>{}\<close> and \<open>474\<close>) are what a
  caller that omits them passes: \<open>Map.empty\<close> and \<open>SafeInteger 474\<close>.
\<close>

definition generateSvg :: "fragments \<Rightarrow> obj \<Rightarrow> number \<Rightarrow> jsstring" where
  \<open>generateSvg R config sz =
     (let merged = defaultConfig ++ config;
          background = or_empty (index (backgroundSvg R) (get merged Background));
          tshirt = or_empty (index (tshirtSvg R) (get merged Tshirt));
          skin = or_empty (index (skinSvg R) (get merged Skin));
          hair = or_empty (index (hairSvg R) (get merged Hair));
          expression = or_empty (index (expressionSvg R) (get merged Expression))
      in js ''<svg width="'' @ Number_toString sz @ js ''" height="'' @ Number_toString sz
         @ js ''" viewBox="0 0 474 474" fill="none" xmlns="http://www.w3.org/2000/svg"><defs><clipPath id="avatarClip"><circle cx="237" cy="237" r="237"/></clipPath></defs>''
         @ background @ js ''<g clip-path="url(#avatarClip)">''
         @ tshirt @ skin @ hair @ expression @ js ''</g></svg>'')\<close>

text \<open>
  For stating what a layer of the markup is: what table \<open>t\<close> gives for the value of key
  \<open>k\<close> in the merged configuration, namely the fragment it holds, the empty string
  where the lookup gives \<open>undefined\<close>, the string of an inherited object or function.
\<close>

definition layer :: "table \<Rightarrow> obj \<Rightarrow> key \<Rightarrow> jsstring" where
  "layer t config k =
     (case index t (get (defaultConfig ++ config) k) of
        Undefined \<Rightarrow> [] | Str f \<Rightarrow> f | Obj s \<Rightarrow> s)"

text \<open>For reading a decimal attribute value back: the number a digit string denotes.\<close>

fun decimal_value :: "jsstring \<Rightarrow> nat \<Rightarrow> nat" where
  "decimal_value [] acc = acc"
| "decimal_value (c # cs) acc = decimal_value cs (10 * acc + (unat c - 48))"

section \<open>Calls into the browser, and errors\<close>

text \<open>
  The calls that the export functions make into the browser, in the order of the source:
  \<open>new Blob([svg], ...)\<close>, \<open>URL.createObjectURL(blob)\<close>,
  \<open>document.createElement(tag)\<close>, \<open>a.href = ...\<close>, \<open>a.download = ...\<close>,
  \<open>document.body.appendChild(a)\<close>, \<open>a.click()\<close>, \<open>document.body.removeChild(a)\<close>,
  \<open>URL.revokeObjectURL(url)\<close>, \<open>new Image()\<close>, \<open>canvas.width = canvas.height = size\<close>,
  \<open>canvas.getContext('2d')\<close>, \<open>img.src = ...\<close>, \<open>ctx.drawImage(img, 0, 0, size, size)\<close>,
  \<open>canvas.toDataURL('image/png')\<close>.
\<close>

datatype effect =
    NewBlob jsstring | CreateObjectURL | CreateElement jsstring | SetHref jsstring
  | SetDownload jsstring | AppendChild | Click | RemoveChild | RevokeObjectURL jsstring
  | NewImage | SetCanvasSize number | GetContext | SetImageSrc jsstring | DrawImage | ToDataURL

text \<open>
  Errors: \<open>new Error(message)\<close>, the \<open>URIError\<close> of \<open>encodeURIComponent\<close>, the
  \<open>InvalidCharacterError\<close> of \<open>btoa\<close>, the \<open>ReferenceError\<close> of calling a global
  that does not exist, and the exception of a call into the browser that throws.
\<close>

datatype error = Error jsstring | URIError | InvalidCharacterError | ReferenceError | Thrown effect

section \<open>Encoding: toBase64 and generateBase64\<close>

text \<open>
  The code unit, and the octet, whose numeric value is \<open>n\<close>.
\<close>

definition code_unit :: "nat \<Rightarrow> 16 word" where
  "code_unit n = of_nat n"

definition octet :: "nat \<Rightarrow> 8 word" where
  "octet n = of_nat n"

text \<open>
  \<open>CodePointAt(string, position)\<close> of ECMA-262, on the code unit at the position and
  the code units after it: the code point, the number of code units it takes, and
  whether it is an unpaired surrogate.
\<close>

definition is_leading_surrogate :: "16 word \<Rightarrow> bool" where
  "is_leading_surrogate u = (0xD800 \<le> unat u \<and> unat u \<le> 0xDBFF)"

definition is_trailing_surrogate :: "16 word \<Rightarrow> bool" where
  "is_trailing_surrogate u = (0xDC00 \<le> unat u \<and> unat u \<le> 0xDFFF)"

definition UTF16SurrogatePairToCodePoint :: "16 word \<Rightarrow> 16 word \<Rightarrow> nat" where
  "UTF16SurrogatePairToCodePoint lead trail =
     (unat lead - 0xD800) * 0x400 + (unat trail - 0xDC00) + 0x10000"

definition CodePointAt :: "16 word \<Rightarrow> jsstring \<Rightarrow> nat \<times> nat \<times> bool" where
  "CodePointAt first rest =
     (if \<not> is_leading_surrogate first \<and> \<not> is_trailing_surrogate first then (unat first, 1, False)
      else if is_trailing_surrogate first \<or> rest = [] then (unat first, 1, True)
      else if \<not> is_trailing_surrogate (hd rest) then (unat first, 1, True)
      else (UTF16SurrogatePairToCodePoint first (hd rest), 2, False))"

text \<open>The UTF-8 transformation of a code point.\<close>

definition utf8_octets :: "nat \<Rightarrow> 8 word list" where
  "utf8_octets cp =
     (if cp < 0x80 then [octet cp]
      else if cp < 0x800 then [octet (0xC0 + cp div 0x40), octet (0x80 + cp mod 0x40)]
      else if cp < 0x10000 then
        [octet (0xE0 + cp div 0x1000), octet (0x80 + cp div 0x40 mod 0x40),
         octet (0x80 + cp mod 0x40)]
      else
        [octet (0xF0 + cp div 0x40000), octet (0x80 + cp div 0x1000 mod 0x40),
         octet (0x80 + cp div 0x40 mod 0x40), octet (0x80 + cp mod 0x40)])"

text \<open>
  \<open>encodeURIComponent\<close> (ECMA-262, \<open>Encode\<close> with the unreserved set of URI
  components): an unreserved code unit is kept; any other code point is replaced by
  \<open>%XX\<close> for each octet of its UTF-8 form, in upper-case hexadecimal; an unpaired
  surrogate throws \<open>URIError\<close>.
\<close>

definition hex_upper :: "nat \<Rightarrow> 16 word" where
  "hex_upper d = (if d < 10 then code_unit (48 + d) else code_unit (55 + d))"

definition percent_encode :: "8 word \<Rightarrow> jsstring" where
  "percent_encode b = [0x25, hex_upper (unat b div 16), hex_upper (unat b mod 16)]"

definition uri_unescaped :: "16 word \<Rightarrow> bool" where
  \<open>uri_unescaped u =
     (u \<in> set (js ''ABCDEFGHIJKLMNOPQRSTUVWXYZabcdefghijklmnopqrstuvwxyz0123456789-_.!~*'()''))\<close>

fun encodeURIComponent :: "jsstring \<Rightarrow> error + jsstring" where
  "encodeURIComponent [] = Inr []"
| "encodeURIComponent (c # cs) =
     (if uri_unescaped c then
        (case encodeURIComponent cs of Inl e \<Rightarrow> Inl e | Inr r \<Rightarrow> Inr (c # r))
      else
        (case CodePointAt c cs of (cp, n, unpaired) \<Rightarrow>
           if unpaired then Inl URIError
           else (case encodeURIComponent (drop (n - 1) cs) of
                   Inl e \<Rightarrow> Inl e
                 | Inr r \<Rightarrow> Inr (concat (map percent_encode (utf8_octets cp)) @ r))))"

text \<open>
  \<open>unescape\<close> (ECMA-262, annex B): \<open>%uXXXX\<close> and \<open>%XX\<close> with hexadecimal digits
  become the code unit of that value; everything else is kept.
\<close>

definition hex_value :: "16 word \<Rightarrow> nat option" where
  "hex_value u =
     (let n = unat u in
      if 48 \<le> n \<and> n \<le> 57 then Some (n - 48)
      else if 65 \<le> n \<and> n \<le> 70 then Some (n - 55)
      else if 97 \<le> n \<and> n \<le> 102 then Some (n - 87)
      else None)"

fun parse_hex :: "jsstring \<Rightarrow> nat \<Rightarrow> nat option" where
  "parse_hex [] acc = Some acc"
| "parse_hex (c # cs) acc =
     (case hex_value c of None \<Rightarrow> None | Some d \<Rightarrow> parse_hex cs (16 * acc + d))"

definition HexDigits :: "jsstring \<Rightarrow> nat option" where
  "HexDigits s = (if s = [] then None else parse_hex s 0)"

fun unescape :: "jsstring \<Rightarrow> jsstring" where
  "unescape [] = []"
| "unescape (c # cs) =
     (if c = 0x25 then
        (if 5 \<le> length cs \<and> hd cs = 0x75 then
           (case HexDigits (take 4 (tl cs)) of
              Some n \<Rightarrow> code_unit n # unescape (drop 5 cs)
            | None \<Rightarrow> c # unescape cs)
         else if 2 \<le> length cs then
           (case HexDigits (take 2 cs) of
              Some n \<Rightarrow> code_unit n # unescape (drop 2 cs)
            | None \<Rightarrow> c # unescape cs)
         else c # unescape cs)
      else c # unescape cs)"

text \<open>
  Base64 (RFC 4648, with padding), as \<open>btoa\<close> and \<open>Buffer.toString('base64')\<close>
  produce it. \<open>btoa\<close> takes a string whose code units are all at most 255, one octet
  each, and throws \<open>InvalidCharacterError\<close> on any other.
\<close>

definition base64_alphabet :: jsstring where
  "base64_alphabet = js ''ABCDEFGHIJKLMNOPQRSTUVWXYZabcdefghijklmnopqrstuvwxyz0123456789+/''"

definition b64 :: "nat \<Rightarrow> 16 word" where
  "b64 i = base64_alphabet ! i"

fun base64_encode :: "8 word list \<Rightarrow> jsstring" where
  "base64_encode [] = []"
| "base64_encode [a] = [b64 (unat a div 4), b64 (unat a mod 4 * 16), 0x3D, 0x3D]"
| "base64_encode [a, b] =
     [b64 (unat a div 4), b64 (unat a mod 4 * 16 + unat b div 16), b64 (unat b mod 16 * 4), 0x3D]"
| "base64_encode (a # b # c # rest) =
     [b64 (unat a div 4), b64 (unat a mod 4 * 16 + unat b div 16),
      b64 (unat b mod 16 * 4 + unat c div 64), b64 (unat c mod 64)] @ base64_encode rest"

definition btoa :: "jsstring \<Rightarrow> error + jsstring" where
  "btoa s = (if list_all (\<lambda>u. unat u \<le> 255) s then Inr (base64_encode (map (\<lambda>u. octet (unat u)) s))
             else Inl InvalidCharacterError)"

text \<open>
  \<open>Buffer.from(str, 'utf-8')\<close>: the UTF-8 octets of the string's code points, an
  unpaired surrogate being replaced by U+FFFD.
\<close>

fun utf8_string :: "jsstring \<Rightarrow> 8 word list" where
  "utf8_string [] = []"
| "utf8_string (c # cs) =
     (case CodePointAt c cs of (cp, n, unpaired) \<Rightarrow>
        utf8_octets (if unpaired then 0xFFFD else cp) @ utf8_string (drop (n - 1) cs))"

text \<open>
  \<open>toBase64(str)\<close>; \<open>btoa_is_function\<close> is the outcome of
  \<open>typeof btoa === 'function'\<close>.
\<close>

definition toBase64 :: "bool \<Rightarrow> jsstring \<Rightarrow> error + jsstring" where
  "toBase64 btoa_is_function str =
     (if btoa_is_function then
        (case encodeURIComponent str of Inl e \<Rightarrow> Inl e | Inr r \<Rightarrow> btoa (unescape r))
      else Inr (base64_encode (utf8_string str)))"

text \<open>\<open>generateBase64(config, size)\<close>.\<close>

definition generateBase64 :: "bool \<Rightarrow> fragments \<Rightarrow> obj \<Rightarrow> number \<Rightarrow> error + jsstring" where
  "generateBase64 btoa_is_function R config sz =
     (let svg = generateSvg R config sz
      in case toBase64 btoa_is_function svg of
           Inl e \<Rightarrow> Inl e
         | Inr b \<Rightarrow> Inr (js ''data:image/svg+xml;base64,'' @ b))"

text \<open>
  The reverse direction, for stating what a payload decodes to: a Base64 decoder
  (alphabet lookup, four characters to three octets, padding at the end only) followed
  by a UTF-8 decoder into UTF-16 code units.
\<close>

fun index_of :: "16 word \<Rightarrow> jsstring \<Rightarrow> nat option" where
  "index_of u [] = None"
| "index_of u (x # xs) = (if u = x then Some 0 else map_option Suc (index_of u xs))"

fun base64_decode :: "jsstring \<Rightarrow> 8 word list option" where
  "base64_decode [] = Some []"
| "base64_decode (w # x # y # z # rest) =
     (case (index_of w base64_alphabet, index_of x base64_alphabet) of
        (Some i, Some j) \<Rightarrow>
          if rest = [] \<and> y = 0x3D \<and> z = 0x3D then Some [octet (i * 4 + j div 16)]
          else (case index_of y base64_alphabet of
                  None \<Rightarrow> None
                | Some k \<Rightarrow>
                    if rest = [] \<and> z = 0x3D
                    then Some [octet (i * 4 + j div 16), octet (j mod 16 * 16 + k div 4)]
                    else (case index_of z base64_alphabet of
                            None \<Rightarrow> None
                          | Some l \<Rightarrow>
                              map_option
                                (\<lambda>bs. octet (i * 4 + j div 16) # octet (j mod 16 * 16 + k div 4)
                                         # octet (k mod 4 * 64 + l) # bs)
                                (base64_decode rest)))
      | _ \<Rightarrow> None)"
| "base64_decode _ = None"

definition utf16_units :: "nat \<Rightarrow> jsstring" where
  "utf16_units cp =
     (if cp < 0x10000 then [code_unit cp]
      else [code_unit (0xD800 + (cp - 0x10000) div 0x400), code_unit (0xDC00 + (cp - 0x10000) mod 0x400)])"

definition continuation :: "8 word \<Rightarrow> nat option" where
  "continuation b = (if 0x80 \<le> unat b \<and> unat b < 0xC0 then Some (unat b - 0x80) else None)"

fun utf8_decode :: "8 word list \<Rightarrow> jsstring option" where
  "utf8_decode [] = Some []"
| "utf8_decode (a # bs) =
     (if unat a < 0x80 then map_option (\<lambda>s. utf16_units (unat a) @ s) (utf8_decode bs)
      else if 0xC0 \<le> unat a \<and> unat a < 0xE0 then
        (case bs of
           b # bs' \<Rightarrow>
             (case continuation b of
                Some x \<Rightarrow> map_option (\<lambda>s. utf16_units ((unat a - 0xC0) * 0x40 + x) @ s) (utf8_decode bs')
              | None \<Rightarrow> None)
         | _ \<Rightarrow> None)
      else if 0xE0 \<le> unat a \<and> unat a < 0xF0 then
        (case bs of
           b # c # bs' \<Rightarrow>
             (case (continuation b, continuation c) of
                (Some x, Some y) \<Rightarrow>
                  map_option (\<lambda>s. utf16_units ((unat a - 0xE0) * 0x1000 + x * 0x40 + y) @ s)
                    (utf8_decode bs')
              | _ \<Rightarrow> None)
         | _ \<Rightarrow> None)
      else if 0xF0 \<le> unat a \<and> unat a < 0xF8 then
        (case bs of
           b # c # d # bs' \<Rightarrow>
             (case (continuation b, continuation c, continuation d) of
                (Some x, Some y, Some z) \<Rightarrow>
                  map_option
                    (\<lambda>s. utf16_units ((unat a - 0xF0) * 0x40000 + x * 0x1000 + y * 0x40 + z) @ s)
                    (utf8_decode bs')
              | _ \<Rightarrow> None)
         | _ \<Rightarrow> None)
      else None)"

definition base64_reverse :: "jsstring \<Rightarrow> jsstring option" where
  "base64_reverse payload = (case base64_decode payload of None \<Rightarrow> None | Some bs \<Rightarrow> utf8_decode bs)"

text \<open>
  A string is well-formed Unicode when it has no unpaired surrogate, that is when it is
  the UTF-16 form of a sequence of Unicode scalar values.
\<close>

fun well_formed :: "jsstring \<Rightarrow> bool" where
  "well_formed [] = True"
| "well_formed (c # cs) =
     (case CodePointAt c cs of (cp, n, unpaired) \<Rightarrow> \<not> unpaired \<and> well_formed (drop (n - 1) cs))"

section \<open>Export functions with side effects\<close>

text \<open>
  What the export functions observe of their environment: whether \<open>window\<close> and
  \<open>btoa\<close> exist, the URL that \<open>URL.createObjectURL\<close> returns, which calls into the
  browser throw, whether the canvas gives a 2D context, which event the image fires after
  its source is set, and the data URL that the canvas produces.
\<close>

datatype image_event = Onload | Onerror | NoEvent

record env =
  window_defined :: bool
  btoa_defined :: bool
  object_url :: jsstring
  throws :: "effect \<Rightarrow> bool"
  context_2d :: bool
  image_event :: image_event
  png_data_url :: jsstring

text \<open>
  A straight-line sequence of calls: they are made in order, and the first one that
  throws ends the sequence with its exception. The result comes with the calls that were
  completed.
\<close>

fun run :: "env \<Rightarrow> effect list \<Rightarrow> (error + unit) \<times> effect list" where
  "run E [] = (Inr (), [])"
| "run E (s # ss) =
     (if throws E s then (Inl (Thrown s), [])
      else (case run E ss of (r, tr) \<Rightarrow> (r, s # tr)))"

text \<open>The state of the promise that an \<open>async\<close> function returns.\<close>

datatype 'a promise = Resolved 'a | Rejected error | Pending

text \<open>
  \<open>generatePngBase64(config, size)\<close>. An exception in the promise's executor rejects
  the promise; an exception in the \<open>onload\<close> handler leaves it pending.
\<close>

definition generatePngBase64 ::
  "env \<Rightarrow> fragments \<Rightarrow> obj \<Rightarrow> number \<Rightarrow> jsstring promise \<times> effect list" where
  "generatePngBase64 E R config sz =
     (if \<not> window_defined E then
        (Rejected (Error (js ''generatePngBase64 is only available in browser environment'')), [])
      else
        (let svg = generateSvg R config sz
         in case run E [NewImage, CreateElement (js ''canvas''), SetCanvasSize sz, GetContext] of
              (Inl e, tr) \<Rightarrow> (Rejected e, tr)
            | (Inr _, tr) \<Rightarrow>
                if \<not> context_2d E then
                  (Rejected (Error (js ''Could not get canvas context'')), tr)
                else if \<not> btoa_defined E then (Rejected ReferenceError, tr)
                else
                  (case encodeURIComponent svg of
                     Inl e \<Rightarrow> (Rejected e, tr)
                   | Inr r \<Rightarrow>
                       (case btoa (unescape r) of
                          Inl e \<Rightarrow> (Rejected e, tr)
                        | Inr b \<Rightarrow>
                            (case run E [SetImageSrc (js ''data:image/svg+xml;base64,'' @ b)] of
                               (Inl e, tr') \<Rightarrow> (Rejected e, tr @ tr')
                             | (Inr _, tr') \<Rightarrow>
                                 (case image_event E of
                                    Onload \<Rightarrow>
                                      (case run E [DrawImage, ToDataURL] of
                                         (Inl e, tr'') \<Rightarrow> (Pending, tr @ tr' @ tr'')
                                       | (Inr _, tr'') \<Rightarrow>
                                           (Resolved (png_data_url E), tr @ tr' @ tr''))
                                  | Onerror \<Rightarrow>
                                      (Rejected (Error (js ''Failed to load SVG image'')),
                                       tr @ tr')
                                  | NoEvent \<Rightarrow> (Pending, tr @ tr')))))))"

text \<open>
  \<open>downloadSvg(config, filename)\<close>; \<open>generateSvg(config)\<close> is called without a size,
  so with 474.
\<close>

definition downloadSvg ::
  "env \<Rightarrow> fragments \<Rightarrow> obj \<Rightarrow> jsstring \<Rightarrow> (error + unit) \<times> effect list" where
  "downloadSvg E R config filename =
     (if \<not> window_defined E then
        (Inl (Error (js ''downloadSvg is only available in browser environment'')), [])
      else
        (let svg = generateSvg R config (SafeInteger 474);
             url = object_url E
         in run E [NewBlob svg, CreateObjectURL, CreateElement (js ''a''), SetHref url,
                   SetDownload filename, AppendChild, Click, RemoveChild,
                   RevokeObjectURL url]))"

text \<open>\<open>downloadPng(config, size, filename)\<close>.\<close>

definition downloadPng ::
  "env \<Rightarrow> fragments \<Rightarrow> obj \<Rightarrow> number \<Rightarrow> jsstring \<Rightarrow> unit promise \<times> effect list" where
  "downloadPng E R config sz filename =
     (if \<not> window_defined E then
        (Rejected (Error (js ''downloadPng is only available in browser environment'')), [])
      else
        (case generatePngBase64 E R config sz of
           (Resolved dataUrl, tr) \<Rightarrow>
             (case run E [CreateElement (js ''a''), SetHref dataUrl, SetDownload filename,
                          AppendChild, Click, RemoveChild] of
                (Inl e, tr') \<Rightarrow> (Rejected e, tr @ tr')
              | (Inr _, tr') \<Rightarrow> (Resolved (), tr @ tr'))
         | (Rejected e, tr) \<Rightarrow> (Rejected e, tr)
         | (Pending, tr) \<Rightarrow> (Pending, tr)))"

text \<open>
  Three environments and a set of tables for concrete runs: no \<open>window\<close> (a server); a
  browser in which every call succeeds; a browser in which \<open>a.click()\<close> throws; tables
  without any entry.
\<close>

definition server_env :: env where
  "server_env = \<lparr>window_defined = False, btoa_defined = True, object_url = [],
     throws = (\<lambda>s. False), context_2d = False, image_event = NoEvent, png_data_url = []\<rparr>"

definition browser_env :: env where
  "browser_env = \<lparr>window_defined = True, btoa_defined = True, object_url = js ''blob:mock-url'',
     throws = (\<lambda>s. False), context_2d = True, image_event = Onload,
     png_data_url = js ''data:image/png;base64,''\<rparr>"

definition click_throws_env :: env where
  "click_throws_env = browser_env\<lparr>throws := (\<lambda>s. s = Click)\<rparr>"

definition empty_table :: table where
  "empty_table = \<lparr>own = Map.empty, inherited = Map.empty\<rparr>"

definition no_fragments :: fragments where
  "no_fragments = \<lparr>backgroundSvg = empty_table, skinSvg = empty_table, tshirtSvg = empty_table,
     expressionSvg = empty_table, hairSvg = empty_table\<rparr>"

text \<open>
  Tables whose strings are all well-formed Unicode, and an example of such tables: the
  background \<open>babyBlue\<close> is a comment holding U+00E9, U+20AC and U+1F600 (a surrogate
  pair).
\<close>

definition well_formed_table :: "table \<Rightarrow> bool" where
  "well_formed_table t =
     ((\<forall>f \<in> ran (own t). well_formed f) \<and> (\<forall>x \<in> ran (inherited t). well_formed (ToString x)))"

definition well_formed_fragments :: "fragments \<Rightarrow> bool" where
  "well_formed_fragments R =
     (well_formed_table (backgroundSvg R) \<and> well_formed_table (skinSvg R)
      \<and> well_formed_table (tshirtSvg R) \<and> well_formed_table (expressionSvg R)
      \<and> well_formed_table (hairSvg R))"

definition unicode_fragments :: fragments where
  "unicode_fragments = no_fragments
     \<lparr>backgroundSvg := \<lparr>own = [js ''babyBlue'' \<mapsto>
          js ''<!--'' @ [0xE9, 0x20AC, 0xD83D, 0xDE00] @ js ''-->''],
        inherited = Map.empty\<rparr>\<rparr>"

text \<open>
  Plain object literals as tables. \<open>Object_prototype\<close> lists the properties that a plain
  object inherits, each with the string that a current engine (V8) gives for its value;
  \<open>__proto__\<close> is the prototype object itself. \<open>sample_fragments\<close> are five small
  tables of this kind, each holding a fragment for the default value of its key.
\<close>

definition Object_prototype :: "jsstring \<rightharpoonup> jsval" where
  \<open>Object_prototype = map_of
     [(js ''constructor'', Obj (js ''function Object() { [native code] }'')),
      (js ''hasOwnProperty'', Obj (js ''function hasOwnProperty() { [native code] }'')),
      (js ''isPrototypeOf'', Obj (js ''function isPrototypeOf() { [native code] }'')),
      (js ''propertyIsEnumerable'', Obj (js ''function propertyIsEnumerable() { [native code] }'')),
      (js ''toLocaleString'', Obj (js ''function toLocaleString() { [native code] }'')),
      (js ''toString'', Obj (js ''function toString() { [native code] }'')),
      (js ''valueOf'', Obj (js ''function valueOf() { [native code] }'')),
      (js ''__defineGetter__'', Obj (js ''function __defineGetter__() { [native code] }'')),
      (js ''__defineSetter__'', Obj (js ''function __defineSetter__() { [native code] }'')),
      (js ''__lookupGetter__'', Obj (js ''function __lookupGetter__() { [native code] }'')),
      (js ''__lookupSetter__'', Obj (js ''function __lookupSetter__() { [native code] }'')),
      (js ''__proto__'', Obj (js ''[object Object]''))]\<close>

definition plain_object :: "(jsstring \<rightharpoonup> jsstring) \<Rightarrow> table" where
  "plain_object props = \<lparr>own = props, inherited = Object_prototype\<rparr>"

definition sample_fragments :: fragments where
  \<open>sample_fragments =
     \<lparr>backgroundSvg = plain_object [js ''babyBlue'' \<mapsto> js ''<rect id="bg"/>''],
      skinSvg = plain_object [js ''softPeach'' \<mapsto> js ''<path id="skin"/>''],
      tshirtSvg = plain_object [js ''orange'' \<mapsto> js ''<path id="tshirt"/>''],
      expressionSvg = plain_object [js ''happy'' \<mapsto> js ''<path id="face"/>''],
      hairSvg = plain_object [js ''shortBuzz'' \<mapsto> js ''<path id="hair"/>'']\<rparr>\<close>

section \<open>The Avatar component's defaults\<close>

text \<open>
  \<open>Avatar({ background = defaultConfig.background, skin = defaultConfig.skin, ... })\<close>:
  what the parameter destructuring of the component binds for each key. A default of a
  destructuring pattern applies when the property is absent and also when it holds
  \<open>undefined\<close>.
\<close>

definition Avatar_props :: "obj \<Rightarrow> key \<Rightarrow> jsval" where
  "Avatar_props props k =
     (case props k of
        None \<Rightarrow> get defaultConfig k
      | Some v \<Rightarrow> (if v = Undefined then get defaultConfig k else v))"

section \<open>Selection controller: AvatarPicker\<close>

text \<open>
  The \<open>value\<close> prop is an object reference or \<open>undefined\<close>. React compares effect
  dependencies with \<open>Object.is\<close>, which on objects is identity, so a reference carries
  the identity of its object next to the object's properties.
\<close>

record objref =
  ident :: nat
  target :: obj

definition object_is :: "objref option \<Rightarrow> objref option \<Rightarrow> bool" where
  "object_is a b =
     (case (a, b) of (None, None) \<Rightarrow> True | (Some x, Some y) \<Rightarrow> ident x = ident y | _ \<Rightarrow> False)"

text \<open>
  The component's state: \<open>config\<close> is the \<open>useState\<close> cell, \<open>deps\<close> the value of
  \<open>[value]\<close> that the effect saw when it last ran.
\<close>

record picker =
  st_config :: obj
  st_deps :: "objref option"

text \<open>
  First render: \<open>useState(value || defaultConfig)\<close>, then the effect runs once:
  \<open>if (value) setConfig(value)\<close>.
\<close>

definition AvatarPicker_mount :: "objref option \<Rightarrow> picker" where
  "AvatarPicker_mount value =
     (let initial = (case value of None \<Rightarrow> defaultConfig | Some r \<Rightarrow> target r)
      in \<lparr>st_config = (case value of None \<Rightarrow> initial | Some r \<Rightarrow> target r), st_deps = value\<rparr>)"

text \<open>
  A later render with prop \<open>value\<close>: the state cell keeps its content; the effect runs
  only when \<open>value\<close> is not the one it saw last, and then overwrites the state only if
  \<open>value\<close> is truthy.
\<close>

definition AvatarPicker_render :: "objref option \<Rightarrow> picker \<Rightarrow> picker" where
  "AvatarPicker_render value st =
     (if object_is (st_deps st) value then st
      else (case value of
              None \<Rightarrow> st\<lparr>st_deps := value\<rparr>
            | Some r \<Rightarrow> st\<lparr>st_config := target r, st_deps := value\<rparr>))"

text \<open>
  \<open>onChange?.(newConfig)\<close>: the calls made to the callback, as the list of their
  arguments; \<open>onChange\<close> tells whether the prop is supplied.
\<close>

definition call_optional :: "bool \<Rightarrow> obj \<Rightarrow> obj list" where
  "call_optional onChange arg = (if onChange then [arg] else [])"

text \<open>
  \<open>updateConfig(key, val)\<close>: returns the new state and the calls to \<open>onChange\<close>. The
  callback closes over the \<open>config\<close> of the render it was made in, which is the content
  of the state cell: every event that sets the state is followed by a render.
\<close>

definition updateConfig :: "bool \<Rightarrow> picker \<Rightarrow> key \<Rightarrow> jsval \<Rightarrow> picker \<times> obj list" where
  "updateConfig onChange st k val =
     (let newConfig = (st_config st)(k \<mapsto> val)
      in (st\<lparr>st_config := newConfig\<rparr>, call_optional onChange newConfig))"








section \<open>Properties of composition\<close>

lemma or_empty_cases:
  "or_empty v = (case v of Undefined \<Rightarrow> [] | Str f \<Rightarrow> f | Obj s \<Rightarrow> s)"
  by (simp add: or_empty_def truthy_def ToString_def split: jsval.splits)

lemma or_empty_layer: "or_empty (index t (get (defaultConfig ++ config) k)) = layer t config k"
  by (simp add: or_empty_cases layer_def)

lemma unat_digit: "d < 10 \<Longrightarrow> unat (digit d) = 48 + d"
  unfolding digit_def unat_of_nat by simp

lemma decimal_value_append:
  "decimal_value (xs @ ys) acc = decimal_value ys (decimal_value xs acc)"
  by (induction xs arbitrary: acc) simp_all

lemma decimal_value_decimal_digits: "decimal_value (decimal_digits n) 0 = n"
proof (induction n rule: decimal_digits.induct)
  case (1 n)
  show ?case
  proof (cases "n < 10")
    case True
    then show ?thesis
      by (simp add: decimal_digits.simps [of n] unat_digit)
  next
    case False
    with 1 have "decimal_value (decimal_digits (n div 10)) 0 = n div 10" by simp
    with False show ?thesis
      by (simp add: decimal_digits.simps [of n] decimal_value_append unat_digit)
  qed
qed

lemma decimal_digits_small: "n < 10 \<Longrightarrow> decimal_digits n = [digit n]"
  by (simp add: decimal_digits.simps [of n])

lemma decimal_digits_474: "decimal_digits 474 = js ''474''"
  by (simp add: decimal_digits.simps [of 474] decimal_digits.simps [of 47]
      decimal_digits_small digit_def js_def)

lemma decimal_digits_100: "decimal_digits 100 = js ''100''"
  by (simp add: decimal_digits.simps [of 100] decimal_digits.simps [of 10]
      decimal_digits_small digit_def js_def)

lemma Number_toString_474: "Number_toString (SafeInteger 474) = js ''474''"
  by (simp add: Number_toString_def decimal_digits_474)

lemma Number_toString_100: "Number_toString (SafeInteger 100) = js ''100''"
  by (simp add: Number_toString_def decimal_digits_100)

lemma generateSvg_layers:
  \<open>generateSvg R config sz =
     js ''<svg width="'' @ Number_toString sz @ js ''" height="'' @ Number_toString sz
     @ js ''" viewBox="0 0 474 474" fill="none" xmlns="http://www.w3.org/2000/svg"><defs><clipPath id="avatarClip"><circle cx="237" cy="237" r="237"/></clipPath></defs>''
     @ layer (backgroundSvg R) config Background
     @ js ''<g clip-path="url(#avatarClip)">''
     @ layer (tshirtSvg R) config Tshirt @ layer (skinSvg R) config Skin
     @ layer (hairSvg R) config Hair @ layer (expressionSvg R) config Expression
     @ js ''</g></svg>''\<close>
  by (simp add: generateSvg_def Let_def or_empty_layer)

lemma layer_miss: "index t (get (defaultConfig ++ config) k) = Undefined \<Longrightarrow> layer t config k = []"
  by (simp add: layer_def)

lemma sample_layer:
  "layer (plain_object [name \<mapsto> f]) config k =
     (if to_property_key (get (defaultConfig ++ config) k) = name then f
      else (case Object_prototype (to_property_key (get (defaultConfig ++ config) k)) of
              None \<Rightarrow> [] | Some x \<Rightarrow> or_empty x))"
  by (simp add: layer_def index_def plain_object_def or_empty_cases split: option.splits)

lemma sample_tables:
  \<open>backgroundSvg sample_fragments = plain_object [js ''babyBlue'' \<mapsto> js ''<rect id="bg"/>'']\<close>
  \<open>skinSvg sample_fragments = plain_object [js ''softPeach'' \<mapsto> js ''<path id="skin"/>'']\<close>
  \<open>tshirtSvg sample_fragments = plain_object [js ''orange'' \<mapsto> js ''<path id="tshirt"/>'']\<close>
  \<open>expressionSvg sample_fragments = plain_object [js ''happy'' \<mapsto> js ''<path id="face"/>'']\<close>
  \<open>hairSvg sample_fragments = plain_object [js ''shortBuzz'' \<mapsto> js ''<path id="hair"/>'']\<close>
  by (simp_all add: sample_fragments_def)

lemmas sample_eval = sample_tables sample_layer get_def defaultConfig_def to_property_key_def
  ToString_def Object_prototype_def or_empty_cases Number_toString_474 Number_toString_100 js_def

text \<open>
  C1. For every partial configuration and every size, the markup is the frame's opening,
  then the background fragment, then the clip group holding the shirt, skin, hair and
  expression fragments in this order, then the closing tags: the background comes first
  and is outside the clip group.
\<close>

theorem generateSvg_layer_order:
  \<open>generateSvg R config sz =
     js ''<svg width="'' @ Number_toString sz @ js ''" height="'' @ Number_toString sz
     @ js ''" viewBox="0 0 474 474" fill="none" xmlns="http://www.w3.org/2000/svg"><defs><clipPath id="avatarClip"><circle cx="237" cy="237" r="237"/></clipPath></defs>''
     @ layer (backgroundSvg R) config Background
     @ js ''<g clip-path="url(#avatarClip)">''
     @ layer (tshirtSvg R) config Tshirt @ layer (skinSvg R) config Skin
     @ layer (hairSvg R) config Hair @ layer (expressionSvg R) config Expression
     @ js ''</g></svg>''\<close>
  by (simp add: generateSvg_def layer_def Let_def or_empty_cases)

text \<open>
  C3, as stated, fails. The value \<open>constructor\<close> has no fragment in a table that is a
  plain object, yet the lookup gives the function that the table inherits, which is
  truthy: its text, not the empty fragment, becomes the background layer.
\<close>

theorem inherited_name_is_not_a_miss:
  \<open>own (backgroundSvg sample_fragments) (js ''constructor'') = None
   \<and> generateSvg sample_fragments [Background \<mapsto> Str (js ''constructor'')] (SafeInteger 474) =
       js ''<svg width="474" height="474" viewBox="0 0 474 474" fill="none" xmlns="http://www.w3.org/2000/svg"><defs><clipPath id="avatarClip"><circle cx="237" cy="237" r="237"/></clipPath></defs>function Object() { [native code] }<g clip-path="url(#avatarClip)"><path id="tshirt"/><path id="skin"/><path id="hair"/><path id="face"/></g></svg>''\<close>
proof -
  have "own (backgroundSvg sample_fragments) (js ''constructor'') = None"
    by (simp add: sample_fragments_def plain_object_def js_def)
  then show ?thesis
    by (simp add: generateSvg_layers sample_eval)
qed

text \<open>
  C3, amended. For every configuration, composition is a total function and raises no
  error. When the lookup of a key's value in its table gives \<open>undefined\<close>, that is when
  the table has no property of that name, neither its own nor one it inherits through its
  prototype, the empty fragment is substituted for that layer: the markup is the frame
  with the other four layers and nothing at the place of this one.
\<close>

theorem registry_miss_is_empty_fragment:
  \<open>(index (backgroundSvg R) (get (defaultConfig ++ config) Background) = Undefined \<longrightarrow>
      generateSvg R config sz =
         js ''<svg width="'' @ Number_toString sz @ js ''" height="'' @ Number_toString sz
         @ js ''" viewBox="0 0 474 474" fill="none" xmlns="http://www.w3.org/2000/svg"><defs><clipPath id="avatarClip"><circle cx="237" cy="237" r="237"/></clipPath></defs>''
         @ js ''<g clip-path="url(#avatarClip)">''
         @ layer (tshirtSvg R) config Tshirt @ layer (skinSvg R) config Skin
         @ layer (hairSvg R) config Hair @ layer (expressionSvg R) config Expression
         @ js ''</g></svg>'')
   \<and> (index (tshirtSvg R) (get (defaultConfig ++ config) Tshirt) = Undefined \<longrightarrow>
      generateSvg R config sz =
         js ''<svg width="'' @ Number_toString sz @ js ''" height="'' @ Number_toString sz
         @ js ''" viewBox="0 0 474 474" fill="none" xmlns="http://www.w3.org/2000/svg"><defs><clipPath id="avatarClip"><circle cx="237" cy="237" r="237"/></clipPath></defs>''
         @ layer (backgroundSvg R) config Background
         @ js ''<g clip-path="url(#avatarClip)">''
         @ layer (skinSvg R) config Skin @ layer (hairSvg R) config Hair
         @ layer (expressionSvg R) config Expression
         @ js ''</g></svg>'')
   \<and> (index (skinSvg R) (get (defaultConfig ++ config) Skin) = Undefined \<longrightarrow>
      generateSvg R config sz =
         js ''<svg width="'' @ Number_toString sz @ js ''" height="'' @ Number_toString sz
         @ js ''" viewBox="0 0 474 474" fill="none" xmlns="http://www.w3.org/2000/svg"><defs><clipPath id="avatarClip"><circle cx="237" cy="237" r="237"/></clipPath></defs>''
         @ layer (backgroundSvg R) config Background
         @ js ''<g clip-path="url(#avatarClip)">''
         @ layer (tshirtSvg R) config Tshirt @ layer (hairSvg R) config Hair
         @ layer (expressionSvg R) config Expression
         @ js ''</g></svg>'')
   \<and> (index (hairSvg R) (get (defaultConfig ++ config) Hair) = Undefined \<longrightarrow>
      generateSvg R config sz =
         js ''<svg width="'' @ Number_toString sz @ js ''" height="'' @ Number_toString sz
         @ js ''" viewBox="0 0 474 474" fill="none" xmlns="http://www.w3.org/2000/svg"><defs><clipPath id="avatarClip"><circle cx="237" cy="237" r="237"/></clipPath></defs>''
         @ layer (backgroundSvg R) config Background
         @ js ''<g clip-path="url(#avatarClip)">''
         @ layer (tshirtSvg R) config Tshirt @ layer (skinSvg R) config Skin
         @ layer (expressionSvg R) config Expression
         @ js ''</g></svg>'')
   \<and> (index (expressionSvg R) (get (defaultConfig ++ config) Expression) = Undefined \<longrightarrow>
      generateSvg R config sz =
         js ''<svg width="'' @ Number_toString sz @ js ''" height="'' @ Number_toString sz
         @ js ''" viewBox="0 0 474 474" fill="none" xmlns="http://www.w3.org/2000/svg"><defs><clipPath id="avatarClip"><circle cx="237" cy="237" r="237"/></clipPath></defs>''
         @ layer (backgroundSvg R) config Background
         @ js ''<g clip-path="url(#avatarClip)">''
         @ layer (tshirtSvg R) config Tshirt @ layer (skinSvg R) config Skin
         @ layer (hairSvg R) config Hair
         @ js ''</g></svg>'')\<close>
  by (simp add: generateSvg_layers layer_miss)

theorem registry_miss_is_empty_fragment_witness:
  \<open>index (backgroundSvg sample_fragments)
     (get (defaultConfig ++ [Background \<mapsto> Str (js ''neon'')]) Background) = Undefined
   \<and> generateSvg sample_fragments [Background \<mapsto> Str (js ''neon'')] (SafeInteger 100) =
       js ''<svg width="100" height="100" viewBox="0 0 474 474" fill="none" xmlns="http://www.w3.org/2000/svg"><defs><clipPath id="avatarClip"><circle cx="237" cy="237" r="237"/></clipPath></defs><g clip-path="url(#avatarClip)"><path id="tshirt"/><path id="skin"/><path id="hair"/><path id="face"/></g></svg>''\<close>
proof -
  have h: "index (backgroundSvg sample_fragments)
      (get (defaultConfig ++ [Background \<mapsto> Str (js ''neon'')]) Background) = Undefined"
    by (simp add: index_def sample_fragments_def plain_object_def defaultConfig_def get_def
        to_property_key_def ToString_def Object_prototype_def js_def)
  from registry_miss_is_empty_fragment
    [of sample_fragments "[Background \<mapsto> Str (js ''neon'')]" "SafeInteger 100"] h
  show ?thesis
    by (simp add: sample_eval)
qed

text \<open>
  C4. For every configuration and every size, the markup contains the \<open>width\<close> and
  \<open>height\<close> attributes whose value is the size as \<open>Number::toString\<close> prints it, which
  for a non-negative integer size (zero included, printed as \<open>0\<close>) are the decimal
  digits that read back to the size; it contains the viewport declaration and the
  clip-path definition \<open>avatarClip\<close>: a circle centred at (237, 237) of radius 237, half
  the side of the viewport.
\<close>

lemma generateSvg_split:
  \<open>\<exists>rest. generateSvg R config sz =
     js ''<svg '' @ (js ''width="'' @ Number_toString sz @ js ''"'') @ js '' ''
     @ (js ''height="'' @ Number_toString sz @ js ''"'') @ js '' ''
     @ js ''viewBox="0 0 474 474"'' @ js '' fill="none" xmlns="http://www.w3.org/2000/svg"><defs>''
     @ js ''<clipPath id="avatarClip"><circle cx="237" cy="237" r="237"/></clipPath>'' @ rest\<close>
  by (simp add: generateSvg_def Let_def js_def)

theorem generateSvg_frame_attributes:
  \<open>sublist (js ''width="'' @ Number_toString sz @ js ''"'') (generateSvg R config sz)
   \<and> sublist (js ''height="'' @ Number_toString sz @ js ''"'') (generateSvg R config sz)
   \<and> decimal_value (Number_toString (SafeInteger n)) 0 = unat n
   \<and> Number_toString (SafeInteger 0) = js ''0''
   \<and> sublist (js ''viewBox="0 0 474 474"'') (generateSvg R config sz)
   \<and> sublist (js ''<clipPath id="avatarClip"><circle cx="237" cy="237" r="237"/></clipPath>'')
        (generateSvg R config sz)
   \<and> decimal_digits (474 div 2) = js ''237''\<close>
proof -
  obtain rest where eq: \<open>generateSvg R config sz =
     js ''<svg '' @ (js ''width="'' @ Number_toString sz @ js ''"'') @ js '' ''
     @ (js ''height="'' @ Number_toString sz @ js ''"'') @ js '' ''
     @ js ''viewBox="0 0 474 474"'' @ js '' fill="none" xmlns="http://www.w3.org/2000/svg"><defs>''
     @ js ''<clipPath id="avatarClip"><circle cx="237" cy="237" r="237"/></clipPath>'' @ rest\<close>
    using generateSvg_split by blast
  have w: \<open>sublist (js ''width="'' @ Number_toString sz @ js ''"'') (generateSvg R config sz)\<close>
    unfolding eq by (rule sublist_appendI)
  have h: \<open>sublist (js ''height="'' @ Number_toString sz @ js ''"'') (generateSvg R config sz)\<close>
    unfolding eq sublist_def by (metis append.assoc)
  have v: \<open>sublist (js ''viewBox="0 0 474 474"'') (generateSvg R config sz)\<close>
    unfolding eq sublist_def by (metis append.assoc)
  have c: \<open>sublist (js ''<clipPath id="avatarClip"><circle cx="237" cy="237" r="237"/></clipPath>'')
      (generateSvg R config sz)\<close>
    unfolding eq sublist_def by (metis append.assoc)
  have d: \<open>decimal_value (Number_toString (SafeInteger n)) 0 = unat n\<close>
    by (simp add: Number_toString_def decimal_value_decimal_digits)
  have z: \<open>Number_toString (SafeInteger 0) = js ''0''\<close>
    by (simp add: Number_toString_def decimal_digits.simps [of 0] digit_def js_def)
  have r: \<open>decimal_digits (474 div 2) = js ''237''\<close>
    by (simp add: decimal_digits.simps [of 237] decimal_digits.simps [of 23]
        decimal_digits.simps [of 2] digit_def js_def)
  from w h v c d z r show ?thesis by blast
qed

text \<open>
  The merge of \<open>generateSvg\<close>: every key is present in the merged configuration, a key
  that the partial configuration has holds the partial configuration's value, every
  other key the default's, and the result is complete when the supplied values are
  strings.
\<close>

lemma merged_configuration:
  "(\<forall>k. \<exists>v. (defaultConfig ++ config) k = Some v)
   \<and> (\<forall>k. (defaultConfig ++ config) k =
         (case config k of None \<Rightarrow> defaultConfig k | Some v \<Rightarrow> Some v))
   \<and> (supplies_strings config \<longrightarrow> complete (defaultConfig ++ config))"
proof (intro conjI allI impI)
  fix k show "\<exists>v. (defaultConfig ++ config) k = Some v"
    by (cases k) (auto simp: map_add_def defaultConfig_def split: option.splits)
next
  fix k show "(defaultConfig ++ config) k =
      (case config k of None \<Rightarrow> defaultConfig k | Some v \<Rightarrow> Some v)"
    by (simp add: map_add_def)
next
  assume a: "supplies_strings config"
  have "is_string v" if "(defaultConfig ++ config) k = Some v" for k v
  proof (cases "config k")
    case None
    with that have "defaultConfig k = Some v" by (simp add: map_add_def)
    then show ?thesis
      by (cases k) (auto simp: defaultConfig_def is_string_def)
  next
    case (Some w)
    with a have "is_string w"
      by (cases k) (auto simp: supplies_strings_def)
    with that Some show ?thesis by (auto simp: map_add_def)
  qed
  moreover have "\<exists>v. (defaultConfig ++ config) k = Some v" for k
    by (cases k) (auto simp: map_add_def defaultConfig_def split: option.splits)
  ultimately show "complete (defaultConfig ++ config)"
    unfolding complete_def by (fastforce split: option.splits)
qed

text \<open>
  C5 fails on the code at a partial configuration that has a key with the value
  \<open>undefined\<close>, which \<open>Partial<AvatarConfig>\<close> admits. The spread lets \<open>undefined\<close>
  override the default, so the merged configuration is not complete, and \<open>generateSvg\<close>
  looks the background up under the name \<open>undefined\<close> and renders none; with the key
  absent it renders the default background. The Avatar component, given the same props,
  takes the default.
\<close>

theorem generateSvg_explicit_undefined:
  \<open>(defaultConfig ++ [Background \<mapsto> Undefined]) Background = Some Undefined
   \<and> \<not> complete (defaultConfig ++ [Background \<mapsto> Undefined])
   \<and> generateSvg sample_fragments [Background \<mapsto> Undefined] (SafeInteger 474) =
       js ''<svg width="474" height="474" viewBox="0 0 474 474" fill="none" xmlns="http://www.w3.org/2000/svg"><defs><clipPath id="avatarClip"><circle cx="237" cy="237" r="237"/></clipPath></defs><g clip-path="url(#avatarClip)"><path id="tshirt"/><path id="skin"/><path id="hair"/><path id="face"/></g></svg>''
   \<and> generateSvg sample_fragments Map.empty (SafeInteger 474) =
       js ''<svg width="474" height="474" viewBox="0 0 474 474" fill="none" xmlns="http://www.w3.org/2000/svg"><defs><clipPath id="avatarClip"><circle cx="237" cy="237" r="237"/></clipPath></defs><rect id="bg"/><g clip-path="url(#avatarClip)"><path id="tshirt"/><path id="skin"/><path id="hair"/><path id="face"/></g></svg>''
   \<and> Avatar_props [Background \<mapsto> Undefined] Background = Str (js ''babyBlue'')
   \<and> Avatar_props Map.empty Background = Str (js ''babyBlue'')\<close>
  by (simp add: generateSvg_layers sample_eval complete_def is_string_def Avatar_props_def)

section \<open>Properties of the encoding\<close>

lemma unat_byte_bound: "unat (b :: 8 word) < 256"
  using unsigned_less [of b, where 'a = nat] by simp

lemma unat_unit_bound: "unat (u :: 16 word) < 65536"
  using unsigned_less [of u, where 'a = nat] by simp

lemma unat_code_unit: "n < 65536 \<Longrightarrow> unat (code_unit n) = n"
  by (simp add: code_unit_def unat_of_nat)

lemma unat_octet: "n < 256 \<Longrightarrow> unat (octet n) = n"
  by (simp add: octet_def unat_of_nat)

lemma code_unit_unat: "code_unit (unat u) = u"
  by (simp add: code_unit_def)

lemma octet_unat: "octet (unat b) = b"
  by (simp add: octet_def)

lemma unat_hex_upper: "d < 16 \<Longrightarrow> unat (hex_upper d) = (if d < 10 then 48 + d else 55 + d)"
  by (simp add: hex_upper_def unat_code_unit)

lemma hex_value_hex_upper: "d < 16 \<Longrightarrow> hex_value (hex_upper d) = Some d"
  by (simp add: hex_value_def Let_def unat_hex_upper)

lemma hex_upper_not_u: "d < 16 \<Longrightarrow> hex_upper d \<noteq> 0x75"
proof
  assume d: "d < 16" and "hex_upper d = 0x75"
  then have "unat (hex_upper d) = 117" by simp
  with d show False by (simp add: unat_hex_upper split: if_splits)
qed

lemma HexDigits_pair:
  "a < 16 \<Longrightarrow> b < 16 \<Longrightarrow> HexDigits [hex_upper a, hex_upper b] = Some (16 * a + b)"
  by (simp add: HexDigits_def hex_value_hex_upper)

lemma unescape_percent_encode:
  "unescape (percent_encode b @ rest) = code_unit (unat b) # unescape rest"
proof -
  have hi: "unat b div 16 < 16" using unat_byte_bound [of b] by simp
  have lo: "unat b mod 16 < 16" by simp
  have v: "16 * (unat b div 16) + unat b mod 16 = unat b" by simp
  show ?thesis
    using hex_upper_not_u [OF hi] HexDigits_pair [OF hi lo] v
    by (simp add: percent_encode_def)
qed

lemma unescape_concat_percent:
  "unescape (concat (map percent_encode bs) @ rest) =
     map (\<lambda>b. code_unit (unat b)) bs @ unescape rest"
  by (induction bs) (simp_all add: unescape_percent_encode del: unescape.simps)

lemma btoa_bytes: "btoa (map (\<lambda>b. code_unit (unat b)) bs) = Inr (base64_encode bs)"
proof -
  have u: "unat (code_unit (unat b)) = unat b" for b :: "8 word"
    using unat_byte_bound [of b] by (simp add: unat_code_unit)
  have a: "list_all (\<lambda>u. unat u \<le> 255) (map (\<lambda>b. code_unit (unat b)) bs)"
    unfolding list_all_iff
  proof
    fix x assume "x \<in> set (map (\<lambda>b. code_unit (unat b)) bs)"
    then obtain b :: "8 word" where "x = code_unit (unat b)" by auto
    with u [of b] unat_byte_bound [of b] show "unat x \<le> 255" by simp
  qed
  have b: "map (\<lambda>u. octet (unat u)) (map (\<lambda>b. code_unit (unat b)) bs) = bs"
    by (simp add: u octet_unat o_def)
  show ?thesis unfolding btoa_def using a b by (simp del: map_map)
qed

lemma uri_unescaped_ascii:
  assumes "uri_unescaped c"
  shows "c \<noteq> 0x25" and "unat c < 0x80"
  using assms by (auto simp: uri_unescaped_def js_def)

lemma CodePointAt_ascii:
  "unat c < 0x80 \<Longrightarrow> CodePointAt c cs = (unat c, 1, False)"
  by (simp add: CodePointAt_def is_leading_surrogate_def is_trailing_surrogate_def)

lemma utf8_octets_ascii:
  "unat (c :: 16 word) < 0x80 \<Longrightarrow> map (\<lambda>b. code_unit (unat b)) (utf8_octets (unat c)) = [c]"
  by (simp add: utf8_octets_def unat_octet code_unit_unat)

lemma encode_unescape_utf8:
  "well_formed s \<Longrightarrow>
     \<exists>r. encodeURIComponent s = Inr r \<and> unescape r = map (\<lambda>b. code_unit (unat b)) (utf8_string s)"
proof (induction s rule: length_induct)
  case (1 s)
  show ?case
  proof (cases s)
    case Nil
    then show ?thesis by simp
  next
    case (Cons c cs)
    obtain cp n unpaired where cpa: "CodePointAt c cs = (cp, n, unpaired)"
      by (cases "CodePointAt c cs") auto
    from "1.prems" Cons cpa have np: "\<not> unpaired" and wf: "well_formed (drop (n - 1) cs)"
      by simp_all
    have "length (drop (n - 1) cs) < length s" using Cons by simp
    with "1.IH" wf obtain r where
      r: "encodeURIComponent (drop (n - 1) cs) = Inr r"
         "unescape r = map (\<lambda>b. code_unit (unat b)) (utf8_string (drop (n - 1) cs))"
      by blast
    show ?thesis
    proof (cases "uri_unescaped c")
      case True
      then have ne: "c \<noteq> 0x25" and small: "unat c < 0x80"
        by (rule uri_unescaped_ascii)+
      from small cpa have n1: "n = 1" and cpc: "cp = unat c"
        by (simp_all add: CodePointAt_ascii)
      from n1 r True have e: "encodeURIComponent (c # cs) = Inr (c # r)" by simp
      have u: "unescape (c # r) = c # unescape r" using ne by simp
      have "map (\<lambda>b. code_unit (unat b)) (utf8_string (c # cs)) = [c] @ map (\<lambda>b. code_unit (unat b)) (utf8_string cs)"
        using cpa n1 cpc np utf8_octets_ascii [OF small] by simp
      with e u r n1 Cons show ?thesis by simp
    next
      case False
      with cpa np r have e: "encodeURIComponent (c # cs) =
          Inr (concat (map percent_encode (utf8_octets cp)) @ r)" by simp
      have "unescape (concat (map percent_encode (utf8_octets cp)) @ r)
          = map (\<lambda>b. code_unit (unat b)) (utf8_octets cp) @ unescape r"
        by (rule unescape_concat_percent)
      moreover have "utf8_string (c # cs) = utf8_octets cp @ utf8_string (drop (n - 1) cs)"
        using cpa np by simp
      ultimately show ?thesis using e r Cons by simp
    qed
  qed
qed

lemma toBase64_well_formed:
  "well_formed s \<Longrightarrow> toBase64 b s = Inr (base64_encode (utf8_string s))"
proof (cases b)
  case True
  assume "well_formed s"
  then obtain r where "encodeURIComponent s = Inr r" "unescape r = map (\<lambda>b. code_unit (unat b)) (utf8_string s)"
    using encode_unescape_utf8 by blast
  with True show ?thesis by (simp add: toBase64_def btoa_bytes)
next
  case False
  then show ?thesis by (simp add: toBase64_def)
qed

lemma index_of_nth:
  "distinct xs \<Longrightarrow> i < length xs \<Longrightarrow> index_of (xs ! i) xs = Some i"
proof (induction xs arbitrary: i)
  case Nil
  then show ?case by simp
next
  case (Cons x xs)
  show ?case
  proof (cases i)
    case 0
    then show ?thesis by simp
  next
    case (Suc j)
    with Cons.prems have "xs ! j \<in> set xs" "x \<notin> set xs" by simp_all
    then have "xs ! j \<noteq> x" by blast
    with Suc Cons show ?thesis by simp
  qed
qed

lemma base64_alphabet_distinct: "distinct base64_alphabet"
  by code_simp

lemma base64_alphabet_length: "length base64_alphabet = 64"
  by code_simp

lemma base64_alphabet_no_pad: "0x3D \<notin> set base64_alphabet"
  by code_simp

lemma index_of_b64: "i < 64 \<Longrightarrow> index_of (b64 i) base64_alphabet = Some i"
  unfolding b64_def
  by (rule index_of_nth) (simp_all add: base64_alphabet_distinct base64_alphabet_length)

lemma b64_not_pad: "i < 64 \<Longrightarrow> b64 i \<noteq> 0x3D"
proof
  assume "i < 64" and e: "b64 i = 0x3D"
  then have "base64_alphabet ! i \<in> set base64_alphabet"
    by (simp add: base64_alphabet_length)
  with e base64_alphabet_no_pad show False by (simp add: b64_def)
qed

lemma octets1:
  fixes a b :: nat
  assumes "b < 256"
  shows "a div 4 * 4 + (a mod 4 * 16 + b div 16) div 16 = a"
proof -
  have "b div 16 < 16" using assms by simp
  then have "(a mod 4 * 16 + b div 16) div 16 = a mod 4" by simp
  then show ?thesis by simp
qed

lemma octets2:
  fixes b c :: nat
  assumes "b < 256" "c < 256"
  shows "(a mod 4 * 16 + b div 16) mod 16 * 16 + (b mod 16 * 4 + c div 64) div 4 = b"
proof -
  have "b div 16 < 16" using assms by simp
  then have x: "(a mod 4 * 16 + b div 16) mod 16 = b div 16" by simp
  have "c div 64 < 4" using assms by simp
  then have y: "(b mod 16 * 4 + c div 64) div 4 = b mod 16" by simp
  show ?thesis unfolding x y by simp
qed

lemma octets3:
  fixes b c :: nat
  assumes "c < 256"
  shows "(b mod 16 * 4 + c div 64) mod 4 * 64 + c mod 64 = c"
proof -
  have "c div 64 < 4" using assms by simp
  then have x: "(b mod 16 * 4 + c div 64) mod 4 = c div 64" by simp
  show ?thesis unfolding x by simp
qed


lemma base64_decode_quad:
  assumes "i < 64" "j < 64" "k < 64" "l < 64"
  shows "base64_decode (b64 i # b64 j # b64 k # b64 l # rest) =
     map_option (\<lambda>bs. octet (i * 4 + j div 16) # octet (j mod 16 * 16 + k div 4)
                       # octet (k mod 4 * 64 + l) # bs) (base64_decode rest)"
  using assms by (simp add: index_of_b64 b64_not_pad)

lemma base64_decode_two_pads:
  assumes "i < 64" "j < 64"
  shows "base64_decode [b64 i, b64 j, 0x3D, 0x3D] = Some [octet (i * 4 + j div 16)]"
  using assms by (simp add: index_of_b64)

lemma base64_decode_one_pad:
  assumes "i < 64" "j < 64" "k < 64"
  shows "base64_decode [b64 i, b64 j, b64 k, 0x3D] =
     Some [octet (i * 4 + j div 16), octet (j mod 16 * 16 + k div 4)]"
  using assms by (simp add: index_of_b64 b64_not_pad)

lemma base64_decode_encode: "base64_decode (base64_encode bs) = Some bs"
proof (induction bs rule: base64_encode.induct)
  case 1
  then show ?case by simp
next
  case (2 a)
  have bd: "unat a < 256" by (rule unat_byte_bound)
  have "base64_decode (base64_encode [a]) =
      Some [octet (unat a div 4 * 4 + (unat a mod 4 * 16) div 16)]"
    unfolding base64_encode.simps
    by (rule base64_decode_two_pads) (use bd in simp_all)
  also have "unat a div 4 * 4 + (unat a mod 4 * 16) div 16 = unat a" by simp
  finally show ?case by (simp add: octet_unat)
next
  case (3 a b)
  have bd: "unat a < 256" "unat b < 256" by (rule unat_byte_bound)+
  have "base64_decode (base64_encode [a, b]) =
      Some [octet (unat a div 4 * 4 + (unat a mod 4 * 16 + unat b div 16) div 16),
            octet ((unat a mod 4 * 16 + unat b div 16) mod 16 * 16 + (unat b mod 16 * 4) div 4)]"
    unfolding base64_encode.simps
    by (rule base64_decode_one_pad) (use bd in simp_all)
  also have "unat a div 4 * 4 + (unat a mod 4 * 16 + unat b div 16) div 16 = unat a"
    by (rule octets1 [OF bd(2)])
  also have "(unat a mod 4 * 16 + unat b div 16) mod 16 * 16 + (unat b mod 16 * 4) div 4 = unat b"
    using octets2 [of "unat b" 0 "unat a"] bd by simp
  finally show ?case by (simp add: octet_unat)
next
  case (4 a b c rest)
  have bd: "unat a < 256" "unat b < 256" "unat c < 256" by (rule unat_byte_bound)+
  have "base64_decode (base64_encode (a # b # c # rest)) =
      map_option (\<lambda>bs.
          octet (unat a div 4 * 4 + (unat a mod 4 * 16 + unat b div 16) div 16)
        # octet ((unat a mod 4 * 16 + unat b div 16) mod 16 * 16
                 + (unat b mod 16 * 4 + unat c div 64) div 4)
        # octet ((unat b mod 16 * 4 + unat c div 64) mod 4 * 64 + unat c mod 64) # bs)
        (base64_decode (base64_encode rest))"
    unfolding base64_encode.simps append_Cons append_Nil
    by (rule base64_decode_quad) (use bd in simp_all)
  also have "unat a div 4 * 4 + (unat a mod 4 * 16 + unat b div 16) div 16 = unat a"
    by (rule octets1 [OF bd(2)])
  also have "(unat a mod 4 * 16 + unat b div 16) mod 16 * 16
      + (unat b mod 16 * 4 + unat c div 64) div 4 = unat b"
    by (rule octets2 [OF bd(2) bd(3)])
  also have "(unat b mod 16 * 4 + unat c div 64) mod 4 * 64 + unat c mod 64 = unat c"
    by (rule octets3 [OF bd(3)])
  finally show ?case using 4 by (simp add: octet_unat)
qed

lemma continuation_octet: "x < 64 \<Longrightarrow> continuation (octet (0x80 + x)) = Some x"
  by (simp add: continuation_def unat_octet)

lemma utf8_decode_1:
  "n < 0x80 \<Longrightarrow> utf8_decode (octet n # rest) =
     map_option (\<lambda>s. utf16_units n @ s) (utf8_decode rest)"
  by (simp add: unat_octet)

lemma utf8_decode_2:
  "h < 0x20 \<Longrightarrow> x < 64 \<Longrightarrow>
   utf8_decode (octet (0xC0 + h) # octet (0x80 + x) # rest) =
     map_option (\<lambda>s. utf16_units (h * 0x40 + x) @ s) (utf8_decode rest)"
  by (simp add: unat_octet continuation_octet)

lemma utf8_decode_3:
  "h < 0x10 \<Longrightarrow> x < 64 \<Longrightarrow> y < 64 \<Longrightarrow>
   utf8_decode (octet (0xE0 + h) # octet (0x80 + x) # octet (0x80 + y) # rest) =
     map_option (\<lambda>s. utf16_units (h * 0x1000 + x * 0x40 + y) @ s) (utf8_decode rest)"
  by (simp add: unat_octet continuation_octet)

lemma utf8_decode_4:
  "h < 8 \<Longrightarrow> x < 64 \<Longrightarrow> y < 64 \<Longrightarrow> z < 64 \<Longrightarrow>
   utf8_decode (octet (0xF0 + h) # octet (0x80 + x) # octet (0x80 + y) # octet (0x80 + z) # rest) =
     map_option (\<lambda>s. utf16_units (h * 0x40000 + x * 0x1000 + y * 0x40 + z) @ s)
       (utf8_decode rest)"
  by (simp add: unat_octet continuation_octet)

lemma split_div_mod:
  "(n :: nat) div (k * m) * (k * m) + n div k mod m * k + n mod k = n"
proof -
  have "n div (k * m) * (k * m) + n div k mod m * k
      = (n div k div m * m + n div k mod m) * k"
    by (simp only: div_mult2_eq add_mult_distrib add_mult_distrib2 mult_ac)
  also have "\<dots> = n div k * k"
    by (simp only: div_mult_mod_eq)
  finally show ?thesis by simp
qed

lemma split3: "(cp :: nat) div 0x1000 * 0x1000 + cp div 0x40 mod 0x40 * 0x40 + cp mod 0x40 = cp"
  using split_div_mod [of cp 64 64] by simp

lemma split4:
  "(cp :: nat) div 0x40000 * 0x40000 + cp div 0x1000 mod 0x40 * 0x1000
     + cp div 0x40 mod 0x40 * 0x40 + cp mod 0x40 = cp"
proof -
  have "cp div 0x40 mod 0x40 * 0x40 + cp mod 0x40 = cp mod 0x1000"
    using split3 [of cp] div_mult_mod_eq [of cp 4096] by linarith
  then show ?thesis
    using split_div_mod [of cp 4096 64] by simp
qed

lemma utf8_decode_octets:
  assumes "cp < 0x110000"
  shows "utf8_decode (utf8_octets cp @ rest) =
     map_option (\<lambda>s. utf16_units cp @ s) (utf8_decode rest)"
proof -
  consider "cp < 0x80" | "0x80 \<le> cp" "cp < 0x800" | "0x800 \<le> cp" "cp < 0x10000"
    | "0x10000 \<le> cp" by linarith
  then show ?thesis
  proof cases
    case 1
    then show ?thesis by (simp add: utf8_octets_def utf8_decode_1 del: utf8_decode.simps)
  next
    case 2
    have "utf8_decode (utf8_octets cp @ rest) =
        map_option (\<lambda>s. utf16_units (cp div 0x40 * 0x40 + cp mod 0x40) @ s) (utf8_decode rest)"
      using 2 by (simp add: utf8_octets_def utf8_decode_2 del: utf8_decode.simps)
    then show ?thesis by simp
  next
    case 3
    have "utf8_decode (utf8_octets cp @ rest) =
        map_option (\<lambda>s. utf16_units
          (cp div 0x1000 * 0x1000 + cp div 0x40 mod 0x40 * 0x40 + cp mod 0x40) @ s)
          (utf8_decode rest)"
      using 3 by (simp add: utf8_octets_def utf8_decode_3 del: utf8_decode.simps)
    then show ?thesis by (simp only: split3)
  next
    case 4
    have "cp div 0x40000 < 8" using assms by simp
    then have "utf8_decode (utf8_octets cp @ rest) =
        map_option (\<lambda>s. utf16_units
          (cp div 0x40000 * 0x40000 + cp div 0x1000 mod 0x40 * 0x1000
             + cp div 0x40 mod 0x40 * 0x40 + cp mod 0x40) @ s)
          (utf8_decode rest)"
      using 4 by (simp add: utf8_octets_def utf8_decode_4 del: utf8_decode.simps)
    then show ?thesis by (simp only: split4)
  qed
qed

lemma CodePointAt_units:
  assumes "CodePointAt c cs = (cp, n, False)"
  shows "cp < 0x110000" and "utf16_units cp @ drop (n - 1) cs = c # cs"
proof -
  show "cp < 0x110000"
    using assms unat_unit_bound [of c]
    by (auto simp: CodePointAt_def UTF16SurrogatePairToCodePoint_def is_leading_surrogate_def
        is_trailing_surrogate_def split: if_splits)
  show "utf16_units cp @ drop (n - 1) cs = c # cs"
  proof (cases "\<not> is_leading_surrogate c \<and> \<not> is_trailing_surrogate c")
    case True
    with assms have "cp = unat c" "n = 1" by (simp_all add: CodePointAt_def)
    with unat_unit_bound [of c] show ?thesis
      by (simp add: utf16_units_def code_unit_unat)
  next
    case False
    with assms obtain d ds where cs: "cs = d # ds"
      and lead: "is_leading_surrogate c" and trail: "is_trailing_surrogate d"
      and cp: "cp = UTF16SurrogatePairToCodePoint c d" and n: "n = 2"
      by (cases cs) (auto simp: CodePointAt_def split: if_splits)
    define hi where "hi = unat c - 0xD800"
    define lo where "lo = unat d - 0xDC00"
    have hi: "unat c = 0xD800 + hi" "hi < 0x400"
      using lead unfolding hi_def is_leading_surrogate_def by linarith+
    have lo: "unat d = 0xDC00 + lo" "lo < 0x400"
      using trail unfolding lo_def is_trailing_surrogate_def by linarith+
    have cpv: "cp = hi * 0x400 + lo + 0x10000"
      by (simp add: cp UTF16SurrogatePairToCodePoint_def hi_def lo_def)
    have "(cp - 0x10000) div 0x400 = hi" "(cp - 0x10000) mod 0x400 = lo"
      using lo(2) by (simp_all add: cpv)
    then have "utf16_units cp = [code_unit (unat c), code_unit (unat d)]"
      by (simp add: utf16_units_def cpv hi(1) lo(1))
    then show ?thesis by (simp add: code_unit_unat cs n)
  qed
qed

lemma utf8_decode_utf8_string: "well_formed s \<Longrightarrow> utf8_decode (utf8_string s) = Some s"
proof (induction s rule: length_induct)
  case (1 s)
  show ?case
  proof (cases s)
    case Nil
    then show ?thesis by simp
  next
    case (Cons c cs)
    obtain cp n unpaired where cpa: "CodePointAt c cs = (cp, n, unpaired)"
      by (cases "CodePointAt c cs") auto
    from "1.prems" Cons cpa have np: "\<not> unpaired" and wf: "well_formed (drop (n - 1) cs)"
      by simp_all
    have "length (drop (n - 1) cs) < length s" using Cons by simp
    with "1.IH" wf have ih: "utf8_decode (utf8_string (drop (n - 1) cs)) = Some (drop (n - 1) cs)"
      by blast
    from cpa np have cpa': "CodePointAt c cs = (cp, n, False)" by simp
    have "utf8_string (c # cs) = utf8_octets cp @ utf8_string (drop (n - 1) cs)"
      using cpa' by simp
    then have "utf8_decode (utf8_string (c # cs)) = Some (utf16_units cp @ drop (n - 1) cs)"
      using utf8_decode_octets [OF CodePointAt_units(1) [OF cpa']] ih by simp
    with CodePointAt_units(2) [OF cpa'] Cons show ?thesis by simp
  qed
qed

lemma CodePointAt_plain:
  "unat c < 0xD800 \<Longrightarrow> CodePointAt c cs = (unat c, 1, False)"
  by (simp add: CodePointAt_def is_leading_surrogate_def is_trailing_surrogate_def)

lemma well_formed_plain: "unat c < 0xD800 \<Longrightarrow> well_formed (c # cs) = well_formed cs"
  by (simp add: CodePointAt_plain)

lemma CodePointAt_append:
  assumes "CodePointAt c cs = (cp, n, False)"
  shows "CodePointAt c (cs @ ys) = (cp, n, False)" and "n - 1 \<le> length cs"
  using assms by (cases cs; auto simp: CodePointAt_def split: if_splits)+

lemma well_formed_append:
  "well_formed xs \<Longrightarrow> well_formed ys \<Longrightarrow> well_formed (xs @ ys)"
proof (induction xs rule: length_induct)
  case (1 xs)
  show ?case
  proof (cases xs)
    case Nil
    with "1.prems" show ?thesis by simp
  next
    case (Cons c cs)
    obtain cp n unpaired where cpa: "CodePointAt c cs = (cp, n, unpaired)"
      by (cases "CodePointAt c cs") auto
    from "1.prems"(1) Cons cpa have np: "\<not> unpaired" and wf: "well_formed (drop (n - 1) cs)"
      by simp_all
    from cpa np have cpa': "CodePointAt c cs = (cp, n, False)" by simp
    have "length (drop (n - 1) cs) < length xs" using Cons by simp
    with "1.IH" wf "1.prems"(2) have "well_formed (drop (n - 1) cs @ ys)" by blast
    with CodePointAt_append(1) [OF cpa', of ys] CodePointAt_append(2) [OF cpa'] Cons
    show ?thesis by simp
  qed
qed

lemma well_formed_js: "well_formed (js s)"
proof (induction s)
  case Nil
  then show ?case by (simp add: js_def)
next
  case (Cons c s)
  have b: "(of_char c :: nat) < 256" by simp
  then have "(of_char c :: nat) < 65536" by linarith
  then have "unat (code_unit (of_char c)) = of_char c"
    by (rule unat_code_unit)
  moreover from b have "(of_char c :: nat) < 0xD800" by linarith
  ultimately have "unat (of_nat (of_char c) :: 16 word) < 0xD800"
    by (simp add: code_unit_def)
  then have "well_formed (of_nat (of_char c) # js s) = well_formed (js s)"
    by (rule well_formed_plain)
  with Cons show ?case by (simp add: js_def)
qed

lemma well_formed_decimal_digits: "well_formed (decimal_digits n)"
proof (induction n rule: decimal_digits.induct)
  case (1 n)
  have d: "well_formed [digit d]" if "d < 10" for d
  proof -
    have "unat (digit d) < 0xD800" using that by (simp add: unat_digit)
    then show ?thesis by (simp add: CodePointAt_plain)
  qed
  show ?case
  proof (cases "n < 10")
    case True
    then show ?thesis
      using d [of n] by (simp add: decimal_digits.simps [of n] del: well_formed.simps)
  next
    case False
    with 1 have "well_formed (decimal_digits (n div 10))" by simp
    moreover have "well_formed [digit (n mod 10)]" by (rule d) simp
    ultimately show ?thesis
      using False
      by (simp add: decimal_digits.simps [of n] well_formed_append del: well_formed.simps)
  qed
qed

lemma well_formed_Number_toString: "well_formed (Number_toString (SafeInteger n))"
  by (simp add: Number_toString_def well_formed_decimal_digits)

lemma well_formed_or_empty:
  assumes "well_formed_table t"
  shows "well_formed (or_empty (index t v))"
proof (cases "own t (to_property_key v)")
  case (Some f)
  then have "f \<in> ran (own t)" by (auto simp: ran_def)
  with assms have "well_formed f" by (simp add: well_formed_table_def)
  with Some show ?thesis by (simp add: index_def or_empty_cases)
next
  case None
  show ?thesis
  proof (cases "inherited t (to_property_key v)")
    case None
    with \<open>own t (to_property_key v) = None\<close> show ?thesis
      by (simp add: index_def or_empty_cases)
  next
    case (Some x)
    then have "x \<in> ran (inherited t)" by (auto simp: ran_def)
    with assms have w: "well_formed (ToString x)" by (simp add: well_formed_table_def)
    have "or_empty x = [] \<or> or_empty x = ToString x"
      by (cases x) (simp_all add: or_empty_cases ToString_def)
    with w have "well_formed (or_empty x)" by auto
    with Some \<open>own t (to_property_key v) = None\<close> show ?thesis
      by (simp add: index_def)
  qed
qed

lemma well_formed_generateSvg:
  "well_formed_fragments R \<Longrightarrow> well_formed (Number_toString sz) \<Longrightarrow>
     well_formed (generateSvg R config sz)"
  by (simp add: generateSvg_def Let_def well_formed_fragments_def well_formed_append
      well_formed_js well_formed_or_empty)

text \<open>
  A string with an unpaired surrogate is not Unicode text and has no UTF-8 form; on it
  \<open>encodeURIComponent\<close> throws.
\<close>

lemma toBase64_lone_surrogate: "toBase64 True [0xD83D] = Inl URIError"
  by (simp add: toBase64_def uri_unescaped_def js_def CodePointAt_def
      is_leading_surrogate_def is_trailing_surrogate_def)

text \<open>
  C2. For every partial configuration and every size, whenever the markup is well-formed
  Unicode (ASCII or not), \<open>generateBase64\<close> returns, on either path of \<open>toBase64\<close>,
  the prefix \<open>data:image/svg+xml;base64,\<close> followed by a payload whose Base64 reverse
  (Base64 decoding, then UTF-8 decoding) is exactly the markup of \<open>generateSvg\<close> for the
  same configuration and size.
\<close>

theorem generateBase64_round_trip:
  \<open>well_formed (generateSvg R config sz) \<Longrightarrow>
     \<exists>payload. generateBase64 btoa_is_function R config sz
          = Inr (js ''data:image/svg+xml;base64,'' @ payload)
        \<and> base64_reverse payload = Some (generateSvg R config sz)\<close>
proof -
  assume wf: "well_formed (generateSvg R config sz)"
  let ?payload = "base64_encode (utf8_string (generateSvg R config sz))"
  have "generateBase64 btoa_is_function R config sz
      = Inr (js ''data:image/svg+xml;base64,'' @ ?payload)"
    by (simp add: generateBase64_def Let_def toBase64_well_formed [OF wf])
  moreover have "base64_reverse ?payload = Some (generateSvg R config sz)"
    by (simp add: base64_reverse_def base64_decode_encode utf8_decode_utf8_string [OF wf])
  ultimately show ?thesis by blast
qed

lemma well_formed_unicode_fragments: "well_formed_fragments unicode_fragments"
proof -
  have "well_formed [0xE9, 0x20AC, 0xD83D, 0xDE00]"
    by (simp add: CodePointAt_def is_leading_surrogate_def is_trailing_surrogate_def)
  then have "well_formed (js ''<!--'' @ [0xE9, 0x20AC, 0xD83D, 0xDE00] @ js ''-->'')"
    by (intro well_formed_append well_formed_js)
  then show ?thesis
    by (simp add: well_formed_fragments_def well_formed_table_def unicode_fragments_def
        no_fragments_def empty_table_def del: well_formed.simps)
qed

theorem generateBase64_round_trip_witness:
  \<open>well_formed (generateSvg unicode_fragments Map.empty (SafeInteger 0))
   \<and> (\<exists>payload. generateBase64 True unicode_fragments Map.empty (SafeInteger 0)
          = Inr (js ''data:image/svg+xml;base64,'' @ payload)
        \<and> base64_reverse payload = Some (generateSvg unicode_fragments Map.empty (SafeInteger 0)))\<close>
proof -
  have wf: "well_formed (generateSvg unicode_fragments Map.empty (SafeInteger 0))"
    using well_formed_unicode_fragments well_formed_Number_toString
    by (rule well_formed_generateSvg)
  from generateBase64_round_trip [OF wf, of True] wf show ?thesis by blast
qed

section \<open>Properties of the export functions\<close>

lemma run_returns: "fst (run E ss) = Inr () \<Longrightarrow> snd (run E ss) = ss"
  by (induction ss) (auto split: if_splits prod.splits)

lemma run_last_call:
  "x \<notin> set pre \<Longrightarrow> (x \<in> set (snd (run E (pre @ [x])))) = (fst (run E (pre @ [x])) = Inr ())"
  by (induction pre) (auto split: if_splits prod.splits)

text \<open>
  C6. When \<open>window\<close> is undefined, \<open>generatePngBase64\<close> and \<open>downloadPng\<close> reject and
  \<open>downloadSvg\<close> throws, each with an \<open>Error\<close> whose message is fixed (it names the
  function and depends on no argument); the one check \<open>typeof window === 'undefined'\<close>
  decides it before anything else is done, and no call into the browser is made.
\<close>

theorem no_window_rejects:
  "\<not> window_defined E \<Longrightarrow>
     generatePngBase64 E R config sz =
       (Rejected (Error (js ''generatePngBase64 is only available in browser environment'')), [])
   \<and> downloadSvg E R config filename =
       (Inl (Error (js ''downloadSvg is only available in browser environment'')), [])
   \<and> downloadPng E R config sz filename =
       (Rejected (Error (js ''downloadPng is only available in browser environment'')), [])"
  by (simp add: generatePngBase64_def downloadSvg_def downloadPng_def)

theorem no_window_rejects_witness:
  "\<not> window_defined server_env
   \<and> generatePngBase64 server_env no_fragments Map.empty (SafeInteger 474) =
       (Rejected (Error (js ''generatePngBase64 is only available in browser environment'')), [])
   \<and> downloadSvg server_env no_fragments Map.empty (js ''avatar.svg'') =
       (Inl (Error (js ''downloadSvg is only available in browser environment'')), [])
   \<and> downloadPng server_env no_fragments Map.empty (SafeInteger 474) (js ''avatar.png'') =
       (Rejected (Error (js ''downloadPng is only available in browser environment'')), [])"
proof -
  have h: "\<not> window_defined server_env" by (simp add: server_env_def)
  from no_window_rejects [OF h] h show ?thesis by blast
qed

text \<open>
  C7, as stated, fails: \<open>downloadSvg\<close> has no handler around the actuation steps. In a
  browser where \<open>a.click()\<close> throws, the object URL has been created, the exception
  leaves the function, and \<open>URL.revokeObjectURL\<close> is never called.
\<close>

theorem downloadSvg_leaks_when_click_throws:
  "fst (downloadSvg click_throws_env no_fragments Map.empty (js ''avatar.svg'')) = Inl (Thrown Click)
   \<and> CreateObjectURL \<in> set (snd (downloadSvg click_throws_env no_fragments Map.empty (js ''avatar.svg'')))
   \<and> RevokeObjectURL (object_url click_throws_env)
       \<notin> set (snd (downloadSvg click_throws_env no_fragments Map.empty (js ''avatar.svg'')))"
  by (simp add: downloadSvg_def click_throws_env_def browser_env_def Let_def)

text \<open>
  C7, amended. In a browser, \<open>downloadSvg\<close> calls \<open>URL.revokeObjectURL\<close> on the URL it
  created exactly when it returns normally, that is when no step before it (nor the call
  itself) throws; it is then the last of the nine calls.
\<close>

theorem downloadSvg_releases_iff_returns:
  "window_defined E \<Longrightarrow>
     (RevokeObjectURL (object_url E) \<in> set (snd (downloadSvg E R config filename)))
       = (fst (downloadSvg E R config filename) = Inr ())
     \<and> (fst (downloadSvg E R config filename) = Inr () \<longrightarrow>
          snd (downloadSvg E R config filename) =
            [NewBlob (generateSvg R config (SafeInteger 474)), CreateObjectURL, CreateElement (js ''a''),
             SetHref (object_url E), SetDownload filename, AppendChild, Click, RemoveChild,
             RevokeObjectURL (object_url E)])"
proof -
  assume w: "window_defined E"
  let ?pre = "[NewBlob (generateSvg R config (SafeInteger 474)), CreateObjectURL, CreateElement (js ''a''),
     SetHref (object_url E), SetDownload filename, AppendChild, Click, RemoveChild]"
  let ?x = "RevokeObjectURL (object_url E)"
  have d: "downloadSvg E R config filename = run E (?pre @ [?x])"
    using w by (simp add: downloadSvg_def Let_def del: run.simps)
  have "?x \<notin> set ?pre" by simp
  then have "(?x \<in> set (snd (run E (?pre @ [?x])))) = (fst (run E (?pre @ [?x])) = Inr ())"
    by (rule run_last_call)
  moreover have "fst (run E (?pre @ [?x])) = Inr () \<longrightarrow> snd (run E (?pre @ [?x])) = ?pre @ [?x]"
    using run_returns by blast
  ultimately show ?thesis
    unfolding d by (simp del: run.simps)
qed

theorem downloadSvg_releases_iff_returns_witness:
  "window_defined browser_env
   \<and> fst (downloadSvg browser_env no_fragments Map.empty (js ''avatar.svg'')) = Inr ()
   \<and> RevokeObjectURL (js ''blob:mock-url'')
       \<in> set (snd (downloadSvg browser_env no_fragments Map.empty (js ''avatar.svg'')))"
proof -
  have h: "window_defined browser_env" by (simp add: browser_env_def)
  have u: "object_url browser_env = js ''blob:mock-url''" by (simp add: browser_env_def)
  have r: "fst (downloadSvg browser_env no_fragments Map.empty (js ''avatar.svg'')) = Inr ()"
    by (simp add: downloadSvg_def browser_env_def Let_def)
  from downloadSvg_releases_iff_returns [OF h, of no_fragments Map.empty "js ''avatar.svg''"] h u r
  show ?thesis by simp
qed

section \<open>Properties of the selection controller\<close>

text \<open>
  C8. For every state, key and value, \<open>updateConfig\<close> gives a configuration in which the
  key holds the value and every other key holds what it held before; it calls the change
  callback once, with that configuration, when one is registered, and makes no call (and
  updates the state all the same) when none is.
\<close>

theorem updateConfig_frame:
  "st_config (fst (updateConfig onChange st k val)) k = Some val
   \<and> (\<forall>k'. k' \<noteq> k \<longrightarrow> st_config (fst (updateConfig onChange st k val)) k' = st_config st k')
   \<and> snd (updateConfig True st k val) = [st_config (fst (updateConfig True st k val))]
   \<and> snd (updateConfig False st k val) = []
   \<and> fst (updateConfig False st k val) = fst (updateConfig True st k val)"
  by (simp add: updateConfig_def call_optional_def Let_def)

theorem updateConfig_frame_witness:
  "Skin \<noteq> Background
   \<and> st_config (fst (updateConfig True (AvatarPicker_mount None) Background
        (Str (js ''peach'')))) Skin = Some (Str (js ''softPeach''))
   \<and> st_config (fst (updateConfig True (AvatarPicker_mount None) Background
        (Str (js ''peach'')))) Background = Some (Str (js ''peach''))"
  using updateConfig_frame [of True "AvatarPicker_mount None" Background "Str (js ''peach'')"]
  by (simp add: AvatarPicker_mount_def defaultConfig_def)

text \<open>
  C10. When the \<open>value\<close> prop goes from a configuration \<open>A\<close> to \<open>undefined\<close>, the state
  keeps \<open>A\<close>; more generally a render without a \<open>value\<close> never changes the state's
  configuration, so the sync overwrites it only when a configuration is supplied.
\<close>

theorem value_removed_keeps_config:
  "st_config (AvatarPicker_render None (AvatarPicker_mount (Some A))) = target A
   \<and> st_config (AvatarPicker_render None st) = st_config st"
  by (simp add: AvatarPicker_render_def AvatarPicker_mount_def object_is_def Let_def
      split: option.splits)












end
